theory Spec2Isabelle
  imports Main
begin

section \<open>Python values of decoded responses\<close>

text \<open>
  The services of \<^verbatim>\<open>py115/services.py\<close> receive the decoded payload of a remote call as
  a plain Python value: \<^verbatim>\<open>None\<close>, a bool, an unbounded int, a str, a list or a dict with
  str keys. A dict is kept as the list of its items in insertion order; where a key occurs
  twice in that list, the first binding is the one the dict holds. Floats are left out.
\<close>

datatype pyval =
    PNone
  | PBool bool
  | PInt int
  | PStr string
  | PList "pyval list"
  | PDict "(string \<times> pyval) list"

text \<open>
  The exceptions the services can meet. \<open>KeyError\<close> and \<open>TypeError\<close> are raised by the
  Python operators on a payload of an unexpected shape, \<open>RemoteProtocolError\<close> and
  \<open>TransportError\<close> by the client when a call fails, \<open>FileNotFoundError\<close> and
  \<open>IsADirectoryError\<close> by \<^verbatim>\<open>open\<close>.
  \<open>UsageError\<close> is the error the specification names for a local precondition.
\<close>

datatype error =
    KeyError string
  | TypeError
  | UsageError
  | RemoteProtocolError string
  | TransportError
  | FileNotFoundError
  | IsADirectoryError

text \<open>\<^verbatim>\<open>bool\<close> is a subclass of \<^verbatim>\<open>int\<close>: \<^verbatim>\<open>True\<close> counts as 1 in arithmetic and comparisons.\<close>

fun py_int_of :: "pyval \<Rightarrow> int option" where
  "py_int_of (PInt n) = Some n"
| "py_int_of (PBool b) = Some (if b then 1 else 0)"
| "py_int_of _ = None"

text \<open>The keys of a dict, each once, in the order of their first binding.\<close>

fun py_keys :: "(string \<times> pyval) list \<Rightarrow> string list" where
  "py_keys [] = []"
| "py_keys ((k, v) # kvs) = k # filter (\<lambda>k'. k' \<noteq> k) (py_keys kvs)"

text \<open>\<^verbatim>\<open>x[key]\<close> with a str key: only a dict can be subscripted by a str.\<close>

fun py_getitem :: "pyval \<Rightarrow> string \<Rightarrow> error + pyval" where
  "py_getitem (PDict kvs) k = (case map_of kvs k of None \<Rightarrow> Inl (KeyError k) | Some v \<Rightarrow> Inr v)"
| "py_getitem _ k = Inl TypeError"

text \<open>Truth value of a payload, as \<^verbatim>\<open>not x\<close> and \<^verbatim>\<open>if x\<close> test it.\<close>

fun py_truthy :: "pyval \<Rightarrow> bool" where
  "py_truthy PNone = False"
| "py_truthy (PBool b) = b"
| "py_truthy (PInt n) = (n \<noteq> 0)"
| "py_truthy (PStr s) = (s \<noteq> [])"
| "py_truthy (PList xs) = (xs \<noteq> [])"
| "py_truthy (PDict kvs) = (kvs \<noteq> [])"

text \<open>
  \<^verbatim>\<open>for x in v\<close>: a list gives its elements, a dict its keys, a str its characters;
  \<^verbatim>\<open>None\<close> and numbers are not iterable.
\<close>

fun py_iter :: "pyval \<Rightarrow> error + pyval list" where
  "py_iter (PList xs) = Inr xs"
| "py_iter (PDict kvs) = Inr (map PStr (py_keys kvs))"
| "py_iter (PStr s) = Inr (map (\<lambda>c. PStr [c]) s)"
| "py_iter _ = Inl TypeError"

text \<open>\<^verbatim>\<open>len(v)\<close>.\<close>

fun py_len :: "pyval \<Rightarrow> error + int" where
  "py_len (PList xs) = Inr (int (length xs))"
| "py_len (PDict kvs) = Inr (int (length (py_keys kvs)))"
| "py_len (PStr s) = Inr (int (length s))"
| "py_len _ = Inl TypeError"

text \<open>\<^verbatim>\<open>v + n\<close> for an int \<open>n\<close>: defined on numbers only.\<close>

definition py_add_int :: "pyval \<Rightarrow> int \<Rightarrow> error + int" where
  "py_add_int v n = (case py_int_of v of None \<Rightarrow> Inl TypeError | Some m \<Rightarrow> Inr (m + n))"

text \<open>\<^verbatim>\<open>n >= v\<close> for an int \<open>n\<close>: defined against numbers only.\<close>

definition py_int_ge :: "int \<Rightarrow> pyval \<Rightarrow> error + bool" where
  "py_int_ge n v = (case py_int_of v of None \<Rightarrow> Inl TypeError | Some m \<Rightarrow> Inr (n \<ge> m))"

text \<open>Strings are ordered lexicographically by character code.\<close>

fun str_lt :: "string \<Rightarrow> string \<Rightarrow> bool" where
  "str_lt [] [] = False"
| "str_lt [] (y # ys) = True"
| "str_lt (x # xs) [] = False"
| "str_lt (x # xs) (y # ys) = (if x = y then str_lt xs ys else (of_char x :: nat) < of_char y)"

text \<open>
  \<^verbatim>\<open>x == y\<close>: numbers by value, lists element by element, dicts key by key whatever the
  order of their items, anything else by identity of type and content.
\<close>

fun py_eq :: "pyval \<Rightarrow> pyval \<Rightarrow> bool"
  and py_eq_list :: "pyval list \<Rightarrow> pyval list \<Rightarrow> bool"
  and py_eq_items :: "string list \<Rightarrow> (string \<times> pyval) list \<Rightarrow> (string \<times> pyval) list \<Rightarrow> bool"
  and py_eq_find :: "string \<Rightarrow> pyval \<Rightarrow> (string \<times> pyval) list \<Rightarrow> bool"
where
  "py_eq (PList xs) (PList ys) = py_eq_list xs ys"
| "py_eq (PDict a) (PDict b) =
     (length (py_keys a) = length (py_keys b) \<and> py_eq_items [] a b)"
| "py_eq x y =
     (case (py_int_of x, py_int_of y) of
        (Some m, Some n) \<Rightarrow> m = n
      | (None, None) \<Rightarrow> x = y
      | _ \<Rightarrow> False)"
| "py_eq_list [] [] = True"
| "py_eq_list (x # xs) (y # ys) = (py_eq x y \<and> py_eq_list xs ys)"
| "py_eq_list _ _ = False"
| "py_eq_items seen [] b = True"
| "py_eq_items seen ((k, v) # a) b =
     (if k \<in> set seen then py_eq_items seen a b
      else py_eq_find k v b \<and> py_eq_items (k # seen) a b)"
| "py_eq_find k v [] = False"
| "py_eq_find k v ((k', w) # b) = (if k = k' then py_eq v w else py_eq_find k v b)"

text \<open>
  \<^verbatim>\<open>x < y\<close>: numbers by value, strs and lists lexicographically (a list by its first
  pair of unequal elements); every other pair of operands raises \<^verbatim>\<open>TypeError\<close>.
\<close>

fun py_lt :: "pyval \<Rightarrow> pyval \<Rightarrow> error + bool"
  and py_lt_list :: "pyval list \<Rightarrow> pyval list \<Rightarrow> error + bool"
where
  "py_lt (PList xs) (PList ys) = py_lt_list xs ys"
| "py_lt (PStr s) (PStr t) = Inr (str_lt s t)"
| "py_lt x y =
     (case (py_int_of x, py_int_of y) of
        (Some m, Some n) \<Rightarrow> Inr (m < n)
      | _ \<Rightarrow> Inl TypeError)"
| "py_lt_list [] [] = Inr False"
| "py_lt_list [] (y # ys) = Inr True"
| "py_lt_list (x # xs) [] = Inr False"
| "py_lt_list (x # xs) (y # ys) = (if py_eq x y then py_lt_list xs ys else py_lt x y)"

text \<open>
  \<^verbatim>\<open>key in v\<close> for a str \<open>key\<close>: a key of a dict, an element of a list, a substring of
  a str; \<^verbatim>\<open>None\<close> and numbers raise \<^verbatim>\<open>TypeError\<close>.
\<close>

fun str_infix :: "string \<Rightarrow> string \<Rightarrow> bool" where
  "str_infix k [] = (k = [])"
| "str_infix k (c # cs) = (take (length k) (c # cs) = k \<or> str_infix k cs)"

fun py_contains :: "string \<Rightarrow> pyval \<Rightarrow> error + bool" where
  "py_contains k (PDict kvs) = Inr (k \<in> set (map fst kvs))"
| "py_contains k (PList xs) = Inr (PStr k \<in> set xs)"
| "py_contains k (PStr s) = Inr (str_infix k s)"
| "py_contains k _ = Inl TypeError"


text \<open>\<^verbatim>\<open>sep.join(parts)\<close>.\<close>

fun str_join :: "string \<Rightarrow> string list \<Rightarrow> string" where
  "str_join sep [] = []"
| "str_join sep [x] = x"
| "str_join sep (x # y # ys) = x @ sep @ str_join sep (y # ys)"


section \<open>The client and its request specs\<close>

text \<open>
  A binary stream as the upload negotiation sees it: what \<^verbatim>\<open>readable()\<close> and
  \<^verbatim>\<open>seekable()\<close> answer, and its content.
\<close>

record binary_io =
  io_readable :: bool
  io_seekable :: bool
  io_bytes :: string

text \<open>
  The request specs that the modelled operations build, each with the arguments its
  constructor receives. The two list specs carry their cursor, which \<^verbatim>\<open>set_page\<close> and
  \<^verbatim>\<open>set_offset\<close> overwrite. The type \<open>'h\<close> is that of the upload helper.
\<close>

datatype 'h api =
    OfflineListApi int
  | OfflineAddUrlsApi string string "string list"
  | OfflineDeleteApi "string list"
  | FileListApi string int
  | FileMoveApi string "string list"
  | FileDeleteApi "string list"
  | FileDownloadApi string
  | UploadInitApi string string binary_io 'h
  | UploadTokenApi

text \<open>
  Modelled from the spec: the constructor \<^verbatim>\<open>offline.ListApi()\<close> is not part of
  \<^verbatim>\<open>services.py\<close>; Task listing is "page-indexed, 1-based", so a fresh spec asks for page 1.
\<close>

definition offline_ListApi :: "'h api" where
  "offline_ListApi = OfflineListApi 1"

text \<open>
  Modelled from the spec: the constructor \<^verbatim>\<open>file.ListApi(dir_id)\<close> is not part of
  \<^verbatim>\<open>services.py\<close>; file listing is "offset-indexed, 0-based", so a fresh spec asks for
  offset 0.
\<close>

definition file_ListApi :: "string \<Rightarrow> 'h api" where
  "file_ListApi dir_id = FileListApi dir_id 0"

fun set_page :: "'h api \<Rightarrow> int \<Rightarrow> 'h api" where
  "set_page (OfflineListApi _) p = OfflineListApi p"
| "set_page spec p = spec"

fun set_offset :: "'h api \<Rightarrow> int \<Rightarrow> 'h api" where
  "set_offset (FileListApi dir_id _) off = FileListApi dir_id off"
| "set_offset spec off = spec"

text \<open>
  The client (\<^verbatim>\<open>py115._internal.protocol.client.Client\<close>) is not part of
  \<^verbatim>\<open>services.py\<close> and is taken as a parameter: \<open>execute\<close> answers one spec from the state
  \<open>'s\<close> of the session and the remote side, either raising or returning the decoded
  payload, and gives the state after the call; \<open>export_cookies\<close> gives the cookie pairs
  the session holds for a URL; \<open>user_agent\<close> is the client's attribute.
\<close>

record ('s, 'h) client =
  execute :: "'s \<Rightarrow> 'h api \<Rightarrow> (error + pyval) \<times> 's"
  export_cookies :: "'s \<Rightarrow> pyval \<Rightarrow> (string \<times> string) list"
  user_agent :: string

text \<open>
  A session is the state behind the client together with the log of the network calls
  made so far: every \<^verbatim>\<open>execute_api\<close> is one call, logged with its answer.
\<close>

record ('s, 'h) session =
  remote :: 's
  calls :: "('h api \<times> (error + pyval)) list"

definition execute_api ::
  "('s, 'h) client \<Rightarrow> ('s, 'h) session \<Rightarrow> 'h api \<Rightarrow> (error + pyval) \<times> ('s, 'h) session"
where
  "execute_api cl w spec =
     (case execute cl (remote w) spec of
        (r, s') \<Rightarrow> (r, \<lparr>remote = s', calls = calls w @ [(spec, r)]\<rparr>))"


section \<open>Domain objects\<close>

text \<open>
  Modelled from the spec: the classes of \<^verbatim>\<open>py115.types\<close> are not part of
  \<^verbatim>\<open>services.py\<close>. \<open>Task\<close> and \<open>File\<close> are "immutable value objects constructed from one
  decoded response record"; a ticket is a value object that bundles what its \<^verbatim>\<open>_create\<close>
  receives.
\<close>

datatype Task = Task pyval

datatype File = File pyval

record download_ticket =
  dt_result :: pyval
  dt_headers :: "(string \<times> string) list"

record upload_ticket =
  ut_init :: pyval
  ut_token :: pyval

definition DownloadTicket_create :: "pyval \<Rightarrow> (string \<times> string) list \<Rightarrow> download_ticket" where
  "DownloadTicket_create result headers = \<lparr>dt_result = result, dt_headers = headers\<rparr>"

definition UploadTicket_create :: "pyval \<Rightarrow> pyval \<Rightarrow> upload_ticket" where
  "UploadTicket_create init_result token_result =
     \<lparr>ut_init = init_result, ut_token = token_result\<rparr>"


section \<open>OfflineService\<close>

record ('s, 'h) OfflineService =
  os_client :: "('s, 'h) client"
  os_app_ver :: string
  os_user_id :: string

text \<open>
  A generator is modelled as driven to its end by the consumer: the result of a
  traversal is the list of the objects yielded, the exception that ended it (if one did)
  and the session after it. A traversal that never ends has no result.
\<close>

record ('a, 's, 'h) traversal =
  yielded :: "'a list"
  raised :: "error option"
  after :: "('s, 'h) session"

text \<open>The items of one page of tasks: \<^verbatim>\<open>for t in result['tasks']\<close>.\<close>

definition task_page_items :: "pyval \<Rightarrow> error + pyval list" where
  "task_page_items result =
     (case py_getitem result ''tasks'' of
        Inl e \<Rightarrow> Inl e
      | Inr ts \<Rightarrow> py_iter ts)"

text \<open>
  What follows the items of a page of tasks: \<open>Inr (Some p)\<close> is \<^verbatim>\<open>spec.set_page(p)\<close> and
  another round, \<open>Inr None\<close> is \<^verbatim>\<open>break\<close>.
\<close>

definition task_page_next :: "pyval \<Rightarrow> error + int option" where
  "task_page_next result =
     (case py_getitem result ''page'' of
        Inl e \<Rightarrow> Inl e
      | Inr page \<Rightarrow>
          (case py_getitem result ''page_count'' of
             Inl e \<Rightarrow> Inl e
           | Inr page_count \<Rightarrow>
               (case py_lt page page_count of
                  Inl e \<Rightarrow> Inl e
                | Inr True \<Rightarrow>
                    (case py_add_int page 1 of
                       Inl e \<Rightarrow> Inl e
                     | Inr p \<Rightarrow> Inr (Some p))
                | Inr False \<Rightarrow> Inr None)))"

partial_function (option) OfflineService_list_loop ::
  "('s, 'h) client \<Rightarrow> ('s, 'h) session \<Rightarrow> 'h api \<Rightarrow> Task list
     \<Rightarrow> (Task, 's, 'h) traversal option"
where
  "OfflineService_list_loop cl w spec acc =
     (case execute_api cl w spec of
        (Inl e, w') \<Rightarrow> Some \<lparr>yielded = acc, raised = Some e, after = w'\<rparr>
      | (Inr result, w') \<Rightarrow>
          (case task_page_items result of
             Inl e \<Rightarrow> Some \<lparr>yielded = acc, raised = Some e, after = w'\<rparr>
           | Inr ts \<Rightarrow>
               (case task_page_next result of
                  Inl e \<Rightarrow> Some \<lparr>yielded = acc @ map Task ts, raised = Some e, after = w'\<rparr>
                | Inr None \<Rightarrow> Some \<lparr>yielded = acc @ map Task ts, raised = None, after = w'\<rparr>
                | Inr (Some p) \<Rightarrow>
                    OfflineService_list_loop cl w' (set_page spec p) (acc @ map Task ts))))"

definition OfflineService_list ::
  "('s, 'h) OfflineService \<Rightarrow> ('s, 'h) session \<Rightarrow> (Task, 's, 'h) traversal option"
where
  "OfflineService_list self w = OfflineService_list_loop (os_client self) w offline_ListApi []"

definition OfflineService_add_url ::
  "('s, 'h) OfflineService \<Rightarrow> ('s, 'h) session \<Rightarrow> string list
     \<Rightarrow> (error + Task list) \<times> ('s, 'h) session"
where
  "OfflineService_add_url self w urls =
     (if length urls = 0 then (Inr [], w)
      else
        (case execute_api (os_client self) w
                (OfflineAddUrlsApi (os_app_ver self) (os_user_id self) urls) of
           (Inl e, w') \<Rightarrow> (Inl e, w')
         | (Inr add_results, w') \<Rightarrow>
             (case py_iter add_results of
                Inl e \<Rightarrow> (Inl e, w')
              | Inr rs \<Rightarrow> (Inr (map Task rs), w'))))"

definition OfflineService_delete ::
  "('s, 'h) OfflineService \<Rightarrow> ('s, 'h) session \<Rightarrow> string list
     \<Rightarrow> (error + unit) \<times> ('s, 'h) session"
where
  "OfflineService_delete self w task_ids =
     (if length task_ids = 0 then (Inr (), w)
      else
        (case execute_api (os_client self) w (OfflineDeleteApi task_ids) of
           (Inl e, w') \<Rightarrow> (Inl e, w')
         | (Inr _, w') \<Rightarrow> (Inr (), w')))"


section \<open>StorageService\<close>

record ('s, 'h) StorageService =
  ss_client :: "('s, 'h) client"
  ss_upload_helper :: 'h

text \<open>The items of one page of files: \<^verbatim>\<open>for f in result['files']\<close>.\<close>

definition file_page_items :: "pyval \<Rightarrow> error + pyval list" where
  "file_page_items result =
     (case py_getitem result ''files'' of
        Inl e \<Rightarrow> Inl e
      | Inr fs \<Rightarrow> py_iter fs)"

text \<open>
  What follows the items of a page of files: \<open>Inr None\<close> is \<^verbatim>\<open>break\<close>, \<open>Inr (Some n)\<close> is
  \<^verbatim>\<open>spec.set_offset(n)\<close> and another round.
\<close>

definition file_page_next :: "pyval \<Rightarrow> error + int option" where
  "file_page_next result =
     (case py_getitem result ''offset'' of
        Inl e \<Rightarrow> Inl e
      | Inr offset \<Rightarrow>
          (case py_getitem result ''files'' of
             Inl e \<Rightarrow> Inl e
           | Inr fs \<Rightarrow>
               (case py_len fs of
                  Inl e \<Rightarrow> Inl e
                | Inr n \<Rightarrow>
                    (case py_add_int offset n of
                       Inl e \<Rightarrow> Inl e
                     | Inr next_offset \<Rightarrow>
                         (case py_getitem result ''count'' of
                            Inl e \<Rightarrow> Inl e
                          | Inr count \<Rightarrow>
                              (case py_int_ge next_offset count of
                                 Inl e \<Rightarrow> Inl e
                               | Inr True \<Rightarrow> Inr None
                               | Inr False \<Rightarrow> Inr (Some next_offset)))))))"

partial_function (option) StorageService_list_loop ::
  "('s, 'h) client \<Rightarrow> ('s, 'h) session \<Rightarrow> 'h api \<Rightarrow> File list
     \<Rightarrow> (File, 's, 'h) traversal option"
where
  "StorageService_list_loop cl w spec acc =
     (case execute_api cl w spec of
        (Inl e, w') \<Rightarrow> Some \<lparr>yielded = acc, raised = Some e, after = w'\<rparr>
      | (Inr result, w') \<Rightarrow>
          (case file_page_items result of
             Inl e \<Rightarrow> Some \<lparr>yielded = acc, raised = Some e, after = w'\<rparr>
           | Inr fs \<Rightarrow>
               (case file_page_next result of
                  Inl e \<Rightarrow> Some \<lparr>yielded = acc @ map File fs, raised = Some e, after = w'\<rparr>
                | Inr None \<Rightarrow> Some \<lparr>yielded = acc @ map File fs, raised = None, after = w'\<rparr>
                | Inr (Some next_offset) \<Rightarrow>
                    StorageService_list_loop cl w' (set_offset spec next_offset)
                      (acc @ map File fs))))"

definition StorageService_list ::
  "('s, 'h) StorageService \<Rightarrow> ('s, 'h) session \<Rightarrow> string \<Rightarrow> (File, 's, 'h) traversal option"
where
  "StorageService_list self w dir_id =
     StorageService_list_loop (ss_client self) w (file_ListApi dir_id) []"

definition StorageService_move ::
  "('s, 'h) StorageService \<Rightarrow> ('s, 'h) session \<Rightarrow> string \<Rightarrow> string list
     \<Rightarrow> (error + unit) \<times> ('s, 'h) session"
where
  "StorageService_move self w target_dir_id file_ids =
     (if length file_ids = 0 then (Inr (), w)
      else
        (case execute_api (ss_client self) w (FileMoveApi target_dir_id file_ids) of
           (Inl e, w') \<Rightarrow> (Inl e, w')
         | (Inr _, w') \<Rightarrow> (Inr (), w')))"

definition StorageService_delete ::
  "('s, 'h) StorageService \<Rightarrow> ('s, 'h) session \<Rightarrow> string list
     \<Rightarrow> (error + unit) \<times> ('s, 'h) session"
where
  "StorageService_delete self w file_ids =
     (if length file_ids = 0 then (Inr (), w)
      else
        (case execute_api (ss_client self) w (FileDeleteApi file_ids) of
           (Inl e, w') \<Rightarrow> (Inl e, w')
         | (Inr _, w') \<Rightarrow> (Inr (), w')))"

text \<open>
  The header pair of one cookie, \<^verbatim>\<open>f'{k}={v}'\<close>, and the headers of a download ticket.
\<close>

definition cookie_pair :: "string \<times> string \<Rightarrow> string" where
  "cookie_pair kv = fst kv @ ''='' @ snd kv"

definition download_headers :: "('s, 'h) client \<Rightarrow> 's \<Rightarrow> pyval \<Rightarrow> (string \<times> string) list" where
  "download_headers cl s url =
     [(''User-Agent'', user_agent cl),
      (''Cookie'', str_join ''; '' (map cookie_pair (export_cookies cl s url)))]"

text \<open>
  \<^verbatim>\<open>request_download\<close>: the result is \<open>Inr None\<close> where the source returns \<^verbatim>\<open>None\<close>.
\<close>

definition StorageService_request_download ::
  "('s, 'h) StorageService \<Rightarrow> ('s, 'h) session \<Rightarrow> string
     \<Rightarrow> (error + download_ticket option) \<times> ('s, 'h) session"
where
  "StorageService_request_download self w pickcode =
     (case execute_api (ss_client self) w (FileDownloadApi pickcode) of
        (Inl e, w') \<Rightarrow> (Inl e, w')
      | (Inr result, w') \<Rightarrow>
          (if result = PNone then (Inr None, w')
           else
             (case py_contains ''url'' result of
                Inl e \<Rightarrow> (Inl e, w')
              | Inr False \<Rightarrow> (Inr None, w')
              | Inr True \<Rightarrow>
                  (case py_getitem result ''url'' of
                     Inl e \<Rightarrow> (Inl e, w')
                   | Inr url \<Rightarrow>
                       (Inr (Some (DownloadTicket_create result
                          (download_headers (ss_client self) (remote w') url))), w')))))"

text \<open>
  \<^verbatim>\<open>request_upload_data\<close>: the stream is checked first, then the pre-check call is made,
  then the token call where \<^verbatim>\<open>init_result['done']\<close> is falsy.
\<close>

definition StorageService_request_upload_data ::
  "('s, 'h) StorageService \<Rightarrow> ('s, 'h) session \<Rightarrow> string \<Rightarrow> string \<Rightarrow> binary_io
     \<Rightarrow> (error + upload_ticket option) \<times> ('s, 'h) session"
where
  "StorageService_request_upload_data self w dir_id save_name data_io =
     (if \<not> (io_readable data_io \<and> io_seekable data_io) then (Inr None, w)
      else
        (case execute_api (ss_client self) w
                (UploadInitApi (''U_1_'' @ dir_id) save_name data_io (ss_upload_helper self)) of
           (Inl e, w1) \<Rightarrow> (Inl e, w1)
         | (Inr init_result, w1) \<Rightarrow>
             (case py_getitem init_result ''done'' of
                Inl e \<Rightarrow> (Inl e, w1)
              | Inr done \<Rightarrow>
                  (if \<not> py_truthy done then
                     (case execute_api (ss_client self) w1 UploadTokenApi of
                        (Inl e, w2) \<Rightarrow> (Inl e, w2)
                      | (Inr token_result, w2) \<Rightarrow>
                          (Inr (Some (UploadTicket_create init_result token_result)), w2))
                   else (Inr (Some (UploadTicket_create init_result PNone)), w1)))))"

text \<open>
  The local filesystem as \<^verbatim>\<open>request_upload\<close> sees it: a path either does not exist, or
  \<^verbatim>\<open>open(path, 'rb')\<close> on it raises or gives a stream.
\<close>

type_synonym filesystem = "string \<Rightarrow> (error + binary_io) option"

definition os_path_exists :: "filesystem \<Rightarrow> string \<Rightarrow> bool" where
  "os_path_exists fs path = (fs path \<noteq> None)"

definition os_path_basename :: "string \<Rightarrow> string" where
  "os_path_basename path = rev (takeWhile (\<lambda>c. c \<noteq> CHR ''/'') (rev path))"

definition py_open :: "filesystem \<Rightarrow> string \<Rightarrow> error + binary_io" where
  "py_open fs path = (case fs path of None \<Rightarrow> Inl FileNotFoundError | Some r \<Rightarrow> r)"

definition StorageService_request_upload ::
  "('s, 'h) StorageService \<Rightarrow> filesystem \<Rightarrow> ('s, 'h) session \<Rightarrow> string \<Rightarrow> string
     \<Rightarrow> (error + upload_ticket option) \<times> ('s, 'h) session"
where
  "StorageService_request_upload self fs w dir_id file_path =
     (if \<not> os_path_exists fs file_path then (Inr None, w)
      else
        (let file_name = os_path_basename file_path in
           (case py_open fs file_path of
              Inl e \<Rightarrow> (Inl e, w)
            | Inr file_io \<Rightarrow>
                StorageService_request_upload_data self w dir_id file_name file_io)))"


section \<open>Observations on a session and test doubles\<close>

text \<open>The number of calls to the token endpoint in a log of network calls.\<close>

definition token_calls :: "('h api \<times> (error + pyval)) list \<Rightarrow> nat" where
  "token_calls log = length (filter (\<lambda>c. fst c = UploadTokenApi) log)"

text \<open>
  The total that the answer of a logged call reports (\<^verbatim>\<open>result['count']\<close>), and the item
  indices that a logged listing call fetched: a file page starts at the requested offset,
  a page of tasks at \<open>(page - 1) * k\<close> where \<open>k\<close> is the page size of the remote.
\<close>

fun reported_total :: "'h api \<times> (error + pyval) \<Rightarrow> pyval option" where
  "reported_total (spec, Inr r) =
     (case py_getitem r ''count'' of Inl e \<Rightarrow> None | Inr c \<Rightarrow> Some c)"
| "reported_total (spec, Inl e) = None"

fun file_fetched :: "'h api \<times> (error + pyval) \<Rightarrow> nat list" where
  "file_fetched (FileListApi dir_id off, Inr r) =
     (case file_page_items r of Inl e \<Rightarrow> [] | Inr fs \<Rightarrow> [nat off ..< nat off + length fs])"
| "file_fetched _ = []"

fun task_fetched :: "nat \<Rightarrow> 'h api \<times> (error + pyval) \<Rightarrow> nat list" where
  "task_fetched k (OfflineListApi p, Inr r) =
     (case task_page_items r of
        Inl e \<Rightarrow> []
      | Inr ts \<Rightarrow> [(nat p - 1) * k ..< (nat p - 1) * k + length ts])"
| "task_fetched k _ = []"

text \<open>
  A client that answers the token endpoint with \<open>tok\<close> and every other spec with \<open>r\<close>,
  holding two cookies; a fresh session; a seekable and a non-seekable stream.
\<close>

definition stub_client :: "pyval \<Rightarrow> pyval \<Rightarrow> (unit, unit) client" where
  "stub_client r tok =
     \<lparr>execute = (\<lambda>s spec. (Inr (if spec = UploadTokenApi then tok else r), s)),
      export_cookies = (\<lambda>s url. [(''UID'', ''u1''), (''CID'', ''c2'')]),
      user_agent = ''Mozilla/5.0''\<rparr>"

definition stub_storage :: "pyval \<Rightarrow> pyval \<Rightarrow> (unit, unit) StorageService" where
  "stub_storage r tok = \<lparr>ss_client = stub_client r tok, ss_upload_helper = ()\<rparr>"

definition fresh_session :: "'s \<Rightarrow> ('s, 'h) session" where
  "fresh_session s = \<lparr>remote = s, calls = []\<rparr>"

definition good_io :: binary_io where
  "good_io = \<lparr>io_readable = True, io_seekable = True, io_bytes = ''abc''\<rparr>"

definition pipe_io :: binary_io where
  "pipe_io = \<lparr>io_readable = True, io_seekable = False, io_bytes = ''abc''\<rparr>"

text \<open>
  A remote that serves one collection in pages of \<open>k\<close> items and answers consistently:
  every answer echoes the requested position, reports the size of the collection as it
  is at that call, and carries the slice of the collection at that position. The state
  is the collection and the batches of items still to arrive; before each answer the
  next batch is appended, so the collection never shrinks. With no batch pending the
  collection is fixed.
\<close>

type_synonym paged_remote = "pyval list \<times> pyval list list"

definition arrive :: "paged_remote \<Rightarrow> paged_remote" where
  "arrive s = (case snd s of [] \<Rightarrow> s | b # bs \<Rightarrow> (fst s @ b, bs))"

definition file_page_response :: "nat \<Rightarrow> pyval list \<Rightarrow> int \<Rightarrow> pyval" where
  "file_page_response k xs off =
     PDict [(''count'', PInt (int (length xs))),
            (''offset'', PInt off),
            (''files'', PList (take k (drop (nat off) xs)))]"

definition task_page_response :: "nat \<Rightarrow> pyval list \<Rightarrow> int \<Rightarrow> pyval" where
  "task_page_response k xs p =
     PDict [(''page'', PInt p),
            (''page_count'', PInt (int ((length xs + k - 1) div k))),
            (''count'', PInt (int (length xs))),
            (''tasks'', PList (take k (drop ((nat p - 1) * k) xs)))]"

definition paged_execute :: "nat \<Rightarrow> paged_remote \<Rightarrow> 'h api \<Rightarrow> (error + pyval) \<times> paged_remote" where
  "paged_execute k s spec =
     (case spec of
        FileListApi dir_id off \<Rightarrow> (Inr (file_page_response k (fst (arrive s)) off), arrive s)
      | OfflineListApi p \<Rightarrow> (Inr (task_page_response k (fst (arrive s)) p), arrive s)
      | _ \<Rightarrow> (Inl (RemoteProtocolError ''unsupported''), arrive s))"

definition paged_client :: "nat \<Rightarrow> (paged_remote, 'h) client" where
  "paged_client k =
     \<lparr>execute = paged_execute k, export_cookies = (\<lambda>s url. []), user_agent = ''''\<rparr>"

definition paged_storage :: "nat \<Rightarrow> (paged_remote, unit) StorageService" where
  "paged_storage k = \<lparr>ss_client = paged_client k, ss_upload_helper = ()\<rparr>"

definition paged_offline :: "nat \<Rightarrow> (paged_remote, unit) OfflineService" where
  "paged_offline k = \<lparr>os_client = paged_client k, os_app_ver = '''', os_user_id = ''''\<rparr>"


definition five_session :: "(paged_remote, unit) session" where
  "five_session = \<lparr>remote = (map PInt [10, 11, 12, 13, 14], []), calls = []\<rparr>"








text \<open>
  A remote that never lets the file listing end: at every offset it serves one item
  and reports a total two above the offset, so its totals grow 2, 3, 4, \<dots> and each
  page lies within the reported total.
\<close>

definition endless_client :: "(unit, unit) client" where
  "endless_client =
     \<lparr>execute = (\<lambda>s spec.
        (case spec of
           FileListApi dir_id off \<Rightarrow>
             Inr (PDict [(''count'', PInt (off + 2)), (''offset'', PInt off),
                         (''files'', PList [PInt off])])
         | _ \<Rightarrow> Inl (RemoteProtocolError ''unsupported''), s)),
      export_cookies = (\<lambda>s url. []), user_agent = ''''\<rparr>"

definition endless_storage :: "(unit, unit) StorageService" where
  "endless_storage = \<lparr>ss_client = endless_client, ss_upload_helper = ()\<rparr>"


declare StorageService_list_loop.simps [code] OfflineService_list_loop.simps [code]


section \<open>One round of each listing loop\<close>

lemma file_loop_step:
  assumes "execute cl (remote w) spec = (Inr result, s')"
    and "py_getitem result ''files'' = Inr (PList fs)"
    and "py_getitem result ''offset'' = Inr (PInt off)"
    and "py_getitem result ''count'' = Inr (PInt cnt)"
  shows "StorageService_list_loop cl w spec acc =
           (if off + int (length fs) < cnt
            then StorageService_list_loop cl
                   \<lparr>remote = s', calls = calls w @ [(spec, Inr result)]\<rparr>
                   (set_offset spec (off + int (length fs))) (acc @ map File fs)
            else Some \<lparr>yielded = acc @ map File fs, raised = None,
                       after = \<lparr>remote = s', calls = calls w @ [(spec, Inr result)]\<rparr>\<rparr>)"
  using assms
  by (subst StorageService_list_loop.simps)
     (simp add: execute_api_def file_page_items_def file_page_next_def py_add_int_def
        py_int_ge_def)

lemma task_loop_step:
  assumes "execute cl (remote w) spec = (Inr result, s')"
    and "py_getitem result ''tasks'' = Inr (PList ts)"
    and "py_getitem result ''page'' = Inr (PInt p)"
    and "py_getitem result ''page_count'' = Inr (PInt pc)"
  shows "OfflineService_list_loop cl w spec acc =
           (if p < pc
            then OfflineService_list_loop cl
                   \<lparr>remote = s', calls = calls w @ [(spec, Inr result)]\<rparr>
                   (set_page spec (p + 1)) (acc @ map Task ts)
            else Some \<lparr>yielded = acc @ map Task ts, raised = None,
                       after = \<lparr>remote = s', calls = calls w @ [(spec, Inr result)]\<rparr>\<rparr>)"
  using assms
  by (subst OfflineService_list_loop.simps)
     (simp add: execute_api_def task_page_items_def task_page_next_def py_add_int_def)


section \<open>The listings against the paged remote\<close>

lemma arrive_static: "snd s = [] \<Longrightarrow> arrive s = s"
  by (simp add: arrive_def)

lemma arrive_total:
  "length (fst (arrive s)) + length (concat (snd (arrive s))) =
   length (fst s) + length (concat (snd s))"
  by (cases s) (simp add: arrive_def split: list.splits)

lemma arrive_extends: "\<exists>ys. fst (arrive s) = fst s @ ys"
  by (cases s) (simp add: arrive_def split: list.splits)

lemma arrive_pow_extends: "\<exists>ys. fst ((arrive ^^ m) s) = fst s @ ys"
proof (induction m)
  case 0
  show ?case by simp
next
  case (Suc m)
  then obtain ys where ys: "fst ((arrive ^^ m) s) = fst s @ ys" by blast
  obtain zs where "fst (arrive ((arrive ^^ m) s)) = fst ((arrive ^^ m) s) @ zs"
    using arrive_extends by blast
  with ys show ?case by simp
qed

lemma arrive_pow_static: "snd s = [] \<Longrightarrow> (arrive ^^ m) s = s"
  by (induction m) (simp_all add: arrive_static)

lemma file_page_fields:
  "py_getitem (file_page_response k xs off) ''files'' = Inr (PList (take k (drop (nat off) xs)))"
  "py_getitem (file_page_response k xs off) ''offset'' = Inr (PInt off)"
  "py_getitem (file_page_response k xs off) ''count'' = Inr (PInt (int (length xs)))"
  by (simp_all add: file_page_response_def)

lemma paged_file_step:
  assumes "off \<le> length (fst (arrive s))"
  shows "StorageService_list_loop (paged_client k) \<lparr>remote = s, calls = cs\<rparr>
           (FileListApi d (int off)) acc =
         (if off + k < length (fst (arrive s))
          then StorageService_list_loop (paged_client k)
                 \<lparr>remote = arrive s,
                  calls = cs @ [(FileListApi d (int off),
                                 Inr (file_page_response k (fst (arrive s)) (int off)))]\<rparr>
                 (FileListApi d (int (off + k)))
                 (acc @ map File (take k (drop off (fst (arrive s)))))
          else Some \<lparr>yielded = acc @ map File (drop off (fst (arrive s))), raised = None,
                     after = \<lparr>remote = arrive s,
                       calls = cs @ [(FileListApi d (int off),
                                 Inr (file_page_response k (fst (arrive s)) (int off)))]\<rparr>\<rparr>)"
proof -
  let ?xs = "fst (arrive s)"
  let ?r = "file_page_response k ?xs (int off)"
  have ex: "execute (paged_client k) (remote \<lparr>remote = s, calls = cs\<rparr>) (FileListApi d (int off))
              = (Inr ?r, arrive s)"
    by (simp add: paged_client_def paged_execute_def)
  have len: "length (take k (drop off ?xs)) = min k (length ?xs - off)"
    by simp
  note st = file_loop_step [OF ex, of "take k (drop off ?xs)" "int off" "int (length ?xs)" acc]
  show ?thesis
  proof (cases "off + k < length ?xs")
    case True
    then have "min k (length ?xs - off) = k" by simp
    with True st show ?thesis
      by (simp add: file_page_fields)
  next
    case False
    then have m: "min k (length ?xs - off) = length ?xs - off" by simp
    from False have "take k (drop off ?xs) = drop off ?xs" by simp
    with False m assms st show ?thesis
      by (simp add: file_page_fields)
  qed
qed

lemma file_entry_facts:
  "reported_total (FileListApi d off, Inr (file_page_response k xs off)) =
     Some (PInt (int (length xs)))"
  "file_fetched (FileListApi d (int n), Inr (file_page_response k xs (int n))) =
     [n ..< n + length (take k (drop n xs))]"
  by (simp_all add: file_page_response_def file_page_items_def)

declare reported_total.simps [simp del] file_fetched.simps [simp del]

lemma upt_split: "i \<le> j \<Longrightarrow> j \<le> l \<Longrightarrow> [i..<j] @ [j..<l] = [i..<l]"
  by (metis le_add_diff_inverse upt_add_eq_append)

lemma take_drop_prefix:
  assumes "off + k < length xs"
  shows "take k (drop off xs) @ drop (off + k) (xs @ ys) = drop off (xs @ ys)"
proof -
  have "take k (drop off (xs @ ys)) = take k (drop off xs)"
    using assms by simp
  moreover have "drop (off + k) (xs @ ys) = drop k (drop off (xs @ ys))"
    by (simp only: drop_drop add.commute [of off k])
  ultimately show ?thesis
    by (metis append_take_drop_id)
qed

lemma paged_file_loop:
  assumes k: "1 \<le> k"
  shows "off \<le> length (fst (arrive s)) \<Longrightarrow>
     \<exists>t new m. StorageService_list_loop (paged_client k) \<lparr>remote = s, calls = cs\<rparr>
                  (FileListApi d (int off)) acc = Some t
       \<and> raised t = None
       \<and> remote (after t) = (arrive ^^ Suc m) s
       \<and> yielded t = acc @ map File (drop off (fst (remote (after t))))
       \<and> calls (after t) = cs @ new \<and> new \<noteq> []
       \<and> concat (map file_fetched new) = [off ..< length (fst (remote (after t)))]
       \<and> reported_total (hd new) = Some (PInt (int (length (fst (arrive s)))))
       \<and> reported_total (last new) = Some (PInt (int (length (fst (remote (after t))))))"
proof (induction "length (fst s) + length (concat (snd s)) - off"
       arbitrary: s off acc cs rule: less_induct)
  case less
  let ?xs = "fst (arrive s)"
  let ?e = "(FileListApi d (int off), Inr (file_page_response k ?xs (int off)))"
  note step = paged_file_step [OF less.prems, of k cs d acc]
  show ?case
  proof (cases "off + k < length ?xs")
    case False
    let ?t = "\<lparr>yielded = acc @ map File (drop off ?xs), raised = None,
               after = \<lparr>remote = arrive s, calls = cs @ [?e]\<rparr>\<rparr>"
    have run: "StorageService_list_loop (paged_client k) \<lparr>remote = s, calls = cs\<rparr>
                 (FileListApi d (int off)) acc = Some ?t"
      using step False by simp
    have tk: "take k (drop off ?xs) = drop off ?xs"
      using False by simp
    have "file_fetched ?e = [off ..< off + length (take k (drop off ?xs))]"
      by (rule file_entry_facts(2))
    then have fet: "concat (map file_fetched [?e]) = [off ..< length ?xs]"
      using less.prems by (simp add: tk)
    have "raised ?t = None \<and> remote (after ?t) = (arrive ^^ Suc 0) s
       \<and> yielded ?t = acc @ map File (drop off (fst (remote (after ?t))))
       \<and> calls (after ?t) = cs @ [?e] \<and> [?e] \<noteq> []
       \<and> concat (map file_fetched [?e]) = [off ..< length (fst (remote (after ?t)))]
       \<and> reported_total (hd [?e]) = Some (PInt (int (length ?xs)))
       \<and> reported_total (last [?e]) = Some (PInt (int (length (fst (remote (after ?t))))))"
      using fet by (simp add: file_entry_facts(1))
    with run show ?thesis by blast
  next
    case True
    let ?s' = "arrive s"
    let ?acc' = "acc @ map File (take k (drop off ?xs))"
    have mono: "length ?xs \<le> length (fst (arrive ?s'))"
      using arrive_extends [of ?s'] by auto
    have bound: "length ?xs \<le> length (fst s) + length (concat (snd s))"
      using arrive_total [of s] by linarith
    have pre: "off + k \<le> length (fst (arrive ?s'))"
      using True mono by linarith
    have meas: "length (fst ?s') + length (concat (snd ?s')) - (off + k)
                < length (fst s) + length (concat (snd s)) - off"
      using True bound k arrive_total [of s] by linarith
    from less.hyps [OF meas pre, of "cs @ [?e]" ?acc']
    obtain t new m where
      run': "StorageService_list_loop (paged_client k) \<lparr>remote = ?s', calls = cs @ [?e]\<rparr>
               (FileListApi d (int (off + k))) ?acc' = Some t"
      and r: "raised t = None"
      and rem: "remote (after t) = (arrive ^^ Suc m) ?s'"
      and yl: "yielded t = ?acc' @ map File (drop (off + k) (fst (remote (after t))))"
      and cl: "calls (after t) = (cs @ [?e]) @ new" and ne: "new \<noteq> []"
      and fet: "concat (map file_fetched new) = [off + k ..< length (fst (remote (after t)))]"
      and lst: "reported_total (last new) = Some (PInt (int (length (fst (remote (after t))))))"
      by blast
    have run: "StorageService_list_loop (paged_client k) \<lparr>remote = s, calls = cs\<rparr>
                 (FileListApi d (int off)) acc = Some t"
      using step True run' by simp
    obtain ys where ys: "fst (remote (after t)) = ?xs @ ys"
      using rem arrive_pow_extends [of "Suc m" ?s'] by auto
    have rem2: "remote (after t) = (arrive ^^ Suc (Suc m)) s"
      using rem by (simp add: funpow_swap1)
    have yl2: "yielded t = acc @ map File (drop off (fst (remote (after t))))"
      using yl take_drop_prefix [OF True, of ys] ys
      by (metis append_assoc map_append)
    have tk: "length (take k (drop off ?xs)) = k"
      using True by simp
    have le: "off + k \<le> length (fst (remote (after t)))"
      using True ys by simp
    have "file_fetched ?e = [off ..< off + length (take k (drop off ?xs))]"
      by (rule file_entry_facts(2))
    then have fe: "file_fetched ?e = [off ..< off + k]"
      by (simp only: tk)
    have fet2: "concat (map file_fetched (?e # new)) = [off ..< length (fst (remote (after t)))]"
      using fet le by (simp add: fe upt_split)
    have "raised t = None \<and> remote (after t) = (arrive ^^ Suc (Suc m)) s
       \<and> yielded t = acc @ map File (drop off (fst (remote (after t))))
       \<and> calls (after t) = cs @ (?e # new) \<and> ?e # new \<noteq> []
       \<and> concat (map file_fetched (?e # new)) = [off ..< length (fst (remote (after t)))]
       \<and> reported_total (hd (?e # new)) = Some (PInt (int (length ?xs)))
       \<and> reported_total (last (?e # new)) = Some (PInt (int (length (fst (remote (after t))))))"
      using r rem2 yl2 cl fet2 lst ne by (simp add: file_entry_facts(1))
    with run show ?thesis by blast
  qed
qed

lemma page_count_less:
  fixes p n k :: nat
  assumes "1 \<le> k"
  shows "(p < (n + k - 1) div k) = (p * k < n)"
proof -
  have "(Suc p \<le> (n + k - 1) div k) = (Suc p * k \<le> n + k - 1)"
    using assms by (simp add: less_eq_div_iff_mult_less_eq)
  also have "\<dots> = (p * k < n)"
    using assms by auto
  finally show ?thesis by (simp add: Suc_le_eq)
qed

lemma task_page_fields:
  "py_getitem (task_page_response k xs p) ''tasks'' =
     Inr (PList (take k (drop ((nat p - 1) * k) xs)))"
  "py_getitem (task_page_response k xs p) ''page'' = Inr (PInt p)"
  "py_getitem (task_page_response k xs p) ''page_count'' =
     Inr (PInt (int ((length xs + k - 1) div k)))"
  by (simp_all add: task_page_response_def)

lemma task_entry_facts:
  "reported_total (OfflineListApi p, Inr (task_page_response k xs p)) =
     Some (PInt (int (length xs)))"
  "task_fetched k (OfflineListApi (int n), Inr (task_page_response k xs (int n))) =
     [(n - 1) * k ..< (n - 1) * k + length (take k (drop ((n - 1) * k) xs))]"
  by (simp_all add: task_page_response_def task_page_items_def reported_total.simps)

declare task_fetched.simps [simp del]

lemma paged_task_step:
  assumes "1 \<le> k"
  shows "OfflineService_list_loop (paged_client k) \<lparr>remote = s, calls = cs\<rparr>
           (OfflineListApi (int p)) acc =
         (if p * k < length (fst (arrive s))
          then OfflineService_list_loop (paged_client k)
                 \<lparr>remote = arrive s,
                  calls = cs @ [(OfflineListApi (int p),
                                 Inr (task_page_response k (fst (arrive s)) (int p)))]\<rparr>
                 (OfflineListApi (int (Suc p)))
                 (acc @ map Task (take k (drop ((p - 1) * k) (fst (arrive s)))))
          else Some \<lparr>yielded = acc @ map Task (take k (drop ((p - 1) * k) (fst (arrive s)))),
                     raised = None,
                     after = \<lparr>remote = arrive s,
                       calls = cs @ [(OfflineListApi (int p),
                                 Inr (task_page_response k (fst (arrive s)) (int p)))]\<rparr>\<rparr>)"
proof -
  let ?xs = "fst (arrive s)"
  let ?r = "task_page_response k ?xs (int p)"
  have ex: "execute (paged_client k) (remote \<lparr>remote = s, calls = cs\<rparr>) (OfflineListApi (int p))
              = (Inr ?r, arrive s)"
    by (simp add: paged_client_def paged_execute_def)
  have tf: "py_getitem ?r ''tasks'' = Inr (PList (take k (drop ((p - 1) * k) ?xs)))"
    by (simp add: task_page_fields)
  note st = task_loop_step [OF ex tf task_page_fields(2) task_page_fields(3), of acc]
  show ?thesis
    using st page_count_less [OF assms, of p "length ?xs"]
    by (simp add: add.commute)
qed

lemma paged_task_loop:
  assumes k: "1 \<le> k"
  shows "1 \<le> p \<Longrightarrow> (p - 1) * k \<le> length (fst (arrive s)) \<Longrightarrow>
     \<exists>t new m. OfflineService_list_loop (paged_client k) \<lparr>remote = s, calls = cs\<rparr>
                  (OfflineListApi (int p)) acc = Some t
       \<and> raised t = None
       \<and> remote (after t) = (arrive ^^ Suc m) s
       \<and> yielded t = acc @ map Task (drop ((p - 1) * k) (fst (remote (after t))))
       \<and> calls (after t) = cs @ new \<and> new \<noteq> []
       \<and> concat (map (task_fetched k) new) = [(p - 1) * k ..< length (fst (remote (after t)))]
       \<and> reported_total (hd new) = Some (PInt (int (length (fst (arrive s)))))
       \<and> reported_total (last new) = Some (PInt (int (length (fst (remote (after t))))))"
proof (induction "length (fst s) + length (concat (snd s)) - (p - 1) * k"
       arbitrary: s p acc cs rule: less_induct)
  case less
  let ?xs = "fst (arrive s)"
  let ?off = "(p - 1) * k"
  let ?e = "(OfflineListApi (int p), Inr (task_page_response k ?xs (int p)))"
  note step = paged_task_step [OF k, of s cs p acc]
  have pk: "?off + k = p * k"
    using less.prems(1) by (cases p) simp_all
  have fe0: "task_fetched k ?e = [?off ..< ?off + length (take k (drop ?off ?xs))]"
    by (rule task_entry_facts(2))
  show ?case
  proof (cases "p * k < length ?xs")
    case False
    have tk: "take k (drop ?off ?xs) = drop ?off ?xs"
      using False pk by simp
    let ?t = "\<lparr>yielded = acc @ map Task (drop ?off ?xs), raised = None,
               after = \<lparr>remote = arrive s, calls = cs @ [?e]\<rparr>\<rparr>"
    have run: "OfflineService_list_loop (paged_client k) \<lparr>remote = s, calls = cs\<rparr>
                 (OfflineListApi (int p)) acc = Some ?t"
      using step False tk by simp
    have fet: "concat (map (task_fetched k) [?e]) = [?off ..< length ?xs]"
      using less.prems(2) fe0 tk by simp
    have "raised ?t = None \<and> remote (after ?t) = (arrive ^^ Suc 0) s
       \<and> yielded ?t = acc @ map Task (drop ?off (fst (remote (after ?t))))
       \<and> calls (after ?t) = cs @ [?e] \<and> [?e] \<noteq> []
       \<and> concat (map (task_fetched k) [?e]) = [?off ..< length (fst (remote (after ?t)))]
       \<and> reported_total (hd [?e]) = Some (PInt (int (length ?xs)))
       \<and> reported_total (last [?e]) = Some (PInt (int (length (fst (remote (after ?t))))))"
      using fet by (simp add: task_entry_facts(1))
    with run show ?thesis by blast
  next
    case True
    let ?s' = "arrive s"
    let ?acc' = "acc @ map Task (take k (drop ?off ?xs))"
    have lt: "?off + k < length ?xs"
      using True pk by simp
    have mono: "length ?xs \<le> length (fst (arrive ?s'))"
      using arrive_extends [of ?s'] by auto
    have bound: "length ?xs \<le> length (fst s) + length (concat (snd s))"
      using arrive_total [of s] by linarith
    have pre: "(Suc p - 1) * k \<le> length (fst (arrive ?s'))"
      using True mono by simp
    have meas: "length (fst ?s') + length (concat (snd ?s')) - (Suc p - 1) * k
                < length (fst s) + length (concat (snd s)) - ?off"
      using lt pk bound k arrive_total [of s] by simp
    have sp: "1 \<le> Suc p" by simp
    from less.hyps [OF meas sp pre, of "cs @ [?e]" ?acc']
    obtain t new m where
      run': "OfflineService_list_loop (paged_client k) \<lparr>remote = ?s', calls = cs @ [?e]\<rparr>
               (OfflineListApi (int (Suc p))) ?acc' = Some t"
      and r: "raised t = None"
      and rem: "remote (after t) = (arrive ^^ Suc m) ?s'"
      and yl: "yielded t = ?acc' @ map Task (drop ((Suc p - 1) * k) (fst (remote (after t))))"
      and cl: "calls (after t) = (cs @ [?e]) @ new" and ne: "new \<noteq> []"
      and fet: "concat (map (task_fetched k) new) =
                  [(Suc p - 1) * k ..< length (fst (remote (after t)))]"
      and lst: "reported_total (last new) = Some (PInt (int (length (fst (remote (after t))))))"
      by blast
    have run: "OfflineService_list_loop (paged_client k) \<lparr>remote = s, calls = cs\<rparr>
                 (OfflineListApi (int p)) acc = Some t"
      using step True run' by simp
    obtain ys where ys: "fst (remote (after t)) = ?xs @ ys"
      using rem arrive_pow_extends [of "Suc m" ?s'] by auto
    have rem2: "remote (after t) = (arrive ^^ Suc (Suc m)) s"
      using rem by (simp add: funpow_swap1)
    have sk: "(Suc p - 1) * k = ?off + k"
      using pk by simp
    have yl2: "yielded t = acc @ map Task (drop ?off (fst (remote (after t))))"
      using yl take_drop_prefix [OF lt, of ys] ys unfolding sk
      by (metis append_assoc map_append)
    have tk: "length (take k (drop ?off ?xs)) = k"
      using lt by simp
    have le: "?off + k \<le> length (fst (remote (after t)))"
      using lt ys by simp
    have fe: "task_fetched k ?e = [?off ..< ?off + k]"
      using fe0 by (simp only: tk)
    have fet2: "concat (map (task_fetched k) (?e # new)) =
                  [?off ..< length (fst (remote (after t)))]"
    proof -
      have "concat (map (task_fetched k) (?e # new)) =
              [?off ..< ?off + k] @ [?off + k ..< length (fst (remote (after t)))]"
        unfolding list.map concat.simps fe fet sk ..
      also have "\<dots> = [?off ..< length (fst (remote (after t)))]"
        using le by (intro upt_split) simp_all
      finally show ?thesis .
    qed
    have "raised t = None \<and> remote (after t) = (arrive ^^ Suc (Suc m)) s
       \<and> yielded t = acc @ map Task (drop ?off (fst (remote (after t))))
       \<and> calls (after t) = cs @ (?e # new) \<and> ?e # new \<noteq> []
       \<and> concat (map (task_fetched k) (?e # new)) = [?off ..< length (fst (remote (after t)))]
       \<and> reported_total (hd (?e # new)) = Some (PInt (int (length ?xs)))
       \<and> reported_total (last (?e # new)) = Some (PInt (int (length (fst (remote (after t))))))"
      using r rem2 yl2 cl fet2 lst ne by (simp add: task_entry_facts(1))
    with run show ?thesis by blast
  qed
qed

lemma paged_file_listing:
  assumes k: "1 \<le> k"
  shows "\<exists>t. StorageService_list (paged_storage k) \<lparr>remote = (xs, pend), calls = []\<rparr> d = Some t
          \<and> raised t = None
          \<and> yielded t = map File (fst (remote (after t)))
          \<and> concat (map file_fetched (calls (after t))) = [0 ..< length (yielded t)]
          \<and> reported_total (last (calls (after t))) = Some (PInt (int (length (yielded t))))
          \<and> (pend = [] \<longrightarrow> yielded t = map File xs \<and>
                reported_total (hd (calls (after t))) = Some (PInt (int (length (yielded t)))))"
proof -
  have c: "ss_client (paged_storage k :: (paged_remote, unit) StorageService) = paged_client k"
    by (simp add: paged_storage_def)
  have "\<exists>t new m.
      StorageService_list_loop (paged_client k :: (paged_remote, unit) client)
        \<lparr>remote = (xs, pend), calls = []\<rparr> (FileListApi d 0) [] = Some t
      \<and> raised t = None
      \<and> remote (after t) = (arrive ^^ Suc m) (xs, pend)
      \<and> yielded t = map File (fst (remote (after t)))
      \<and> calls (after t) = new
      \<and> concat (map file_fetched new) = [0 ..< length (fst (remote (after t)))]
      \<and> reported_total (hd new) = Some (PInt (int (length (fst (arrive (xs, pend))))))
      \<and> reported_total (last new) = Some (PInt (int (length (fst (remote (after t))))))"
    using paged_file_loop [OF k, of 0 "(xs, pend)" "[]" d "[]"]
    by (simp del: funpow.simps) blast
  then obtain t new m where
    run: "StorageService_list_loop (paged_client k :: (paged_remote, unit) client)
            \<lparr>remote = (xs, pend), calls = []\<rparr> (FileListApi d 0) [] = Some t"
    and r: "raised t = None"
    and rem: "remote (after t) = (arrive ^^ Suc m) (xs, pend)"
    and yl: "yielded t = map File (fst (remote (after t)))"
    and cl: "calls (after t) = new"
    and fet: "concat (map file_fetched new) = [0 ..< length (fst (remote (after t)))]"
    and fst_total: "reported_total (hd new) = Some (PInt (int (length (fst (arrive (xs, pend))))))"
    and lst: "reported_total (last new) = Some (PInt (int (length (fst (remote (after t))))))"
    by blast
  have len: "length (yielded t) = length (fst (remote (after t)))"
    using yl by simp
  have static: "pend = [] \<longrightarrow> yielded t = map File xs \<and>
      reported_total (hd (calls (after t))) = Some (PInt (int (length (yielded t))))"
  proof
    assume p: "pend = []"
    then have "remote (after t) = (xs, [])"
      using rem arrive_pow_static [of "(xs, [])" "Suc m"] by simp
    moreover have "arrive (xs, pend) = (xs, [])"
      using p by (simp add: arrive_def)
    ultimately show "yielded t = map File xs \<and>
      reported_total (hd (calls (after t))) = Some (PInt (int (length (yielded t))))"
      using yl fst_total cl by simp
  qed
  have "StorageService_list (paged_storage k) \<lparr>remote = (xs, pend), calls = []\<rparr> d = Some t"
    unfolding StorageService_list_def file_ListApi_def c using run by simp
  moreover have "concat (map file_fetched (calls (after t))) = [0 ..< length (yielded t)]"
    using fet cl len by simp
  moreover have "reported_total (last (calls (after t))) =
      Some (PInt (int (length (yielded t))))"
    using lst cl len by simp
  ultimately show ?thesis
    using r yl static by blast
qed

lemma paged_task_listing:
  assumes k: "1 \<le> k"
  shows "\<exists>t. OfflineService_list (paged_offline k) \<lparr>remote = (xs, pend), calls = []\<rparr> = Some t
          \<and> raised t = None
          \<and> yielded t = map Task (fst (remote (after t)))
          \<and> concat (map (task_fetched k) (calls (after t))) = [0 ..< length (yielded t)]
          \<and> reported_total (last (calls (after t))) = Some (PInt (int (length (yielded t))))
          \<and> (pend = [] \<longrightarrow> yielded t = map Task xs \<and>
                reported_total (hd (calls (after t))) = Some (PInt (int (length (yielded t)))))"
proof -
  have c: "os_client (paged_offline k :: (paged_remote, unit) OfflineService) = paged_client k"
    by (simp add: paged_offline_def)
  have "\<exists>t new m.
      OfflineService_list_loop (paged_client k :: (paged_remote, unit) client)
        \<lparr>remote = (xs, pend), calls = []\<rparr> (OfflineListApi 1) [] = Some t
      \<and> raised t = None
      \<and> remote (after t) = (arrive ^^ Suc m) (xs, pend)
      \<and> yielded t = map Task (fst (remote (after t)))
      \<and> calls (after t) = new
      \<and> concat (map (task_fetched k) new) = [0 ..< length (fst (remote (after t)))]
      \<and> reported_total (hd new) = Some (PInt (int (length (fst (arrive (xs, pend))))))
      \<and> reported_total (last new) = Some (PInt (int (length (fst (remote (after t))))))"
    using paged_task_loop [OF k, of 1 "(xs, pend)" "[]" "[]"]
    by (simp del: funpow.simps) blast
  then obtain t new m where
    run: "OfflineService_list_loop (paged_client k :: (paged_remote, unit) client)
            \<lparr>remote = (xs, pend), calls = []\<rparr> (OfflineListApi 1) [] = Some t"
    and r: "raised t = None"
    and rem: "remote (after t) = (arrive ^^ Suc m) (xs, pend)"
    and yl: "yielded t = map Task (fst (remote (after t)))"
    and cl: "calls (after t) = new"
    and fet: "concat (map (task_fetched k) new) = [0 ..< length (fst (remote (after t)))]"
    and fst_total: "reported_total (hd new) = Some (PInt (int (length (fst (arrive (xs, pend))))))"
    and lst: "reported_total (last new) = Some (PInt (int (length (fst (remote (after t))))))"
    by blast
  have len: "length (yielded t) = length (fst (remote (after t)))"
    using yl by simp
  have static: "pend = [] \<longrightarrow> yielded t = map Task xs \<and>
      reported_total (hd (calls (after t))) = Some (PInt (int (length (yielded t))))"
  proof
    assume p: "pend = []"
    then have "remote (after t) = (xs, [])"
      using rem arrive_pow_static [of "(xs, [])" "Suc m"] by simp
    moreover have "arrive (xs, pend) = (xs, [])"
      using p by (simp add: arrive_def)
    ultimately show "yielded t = map Task xs \<and>
      reported_total (hd (calls (after t))) = Some (PInt (int (length (yielded t))))"
      using yl fst_total cl by simp
  qed
  have "OfflineService_list (paged_offline k) \<lparr>remote = (xs, pend), calls = []\<rparr> = Some t"
    unfolding OfflineService_list_def offline_ListApi_def c using run by simp
  moreover have "concat (map (task_fetched k) (calls (after t))) = [0 ..< length (yielded t)]"
    using fet cl len by simp
  moreover have "reported_total (last (calls (after t))) =
      Some (PInt (int (length (yielded t))))"
    using lst cl len by simp
  ultimately show ?thesis
    using r yl static by blast
qed


lemma five_files_run:
  "map fst (calls (after (the (StorageService_list (paged_storage 2) five_session ''0'')))) =
     [FileListApi ''0'' 0, FileListApi ''0'' 2, FileListApi ''0'' 4]"
  by code_simp

lemma five_tasks_run:
  "map fst (calls (after (the (OfflineService_list (paged_offline 2) five_session)))) =
     [OfflineListApi 1, OfflineListApi 2, OfflineListApi 3]"
  by code_simp

lemma take_two_pages:
  assumes "length xs = 125"
  shows "take 50 xs @ take 50 (drop 50 xs) @ drop 100 xs = xs"
proof -
  have "take 50 xs @ take 50 (drop 50 xs) @ drop 100 xs =
          (take 50 xs @ take 50 (drop 50 xs)) @ drop 100 xs"
    by (simp only: append_assoc)
  also have "take 50 xs @ take 50 (drop 50 xs) = take (50 + 50) xs"
    by (simp only: take_add)
  also have "take (50 + 50) xs @ drop 100 xs = xs"
    by simp
  finally show ?thesis .
qed

lemma listing_125_by_50:
  assumes len: "length xs = 125"
  shows "StorageService_list (paged_storage 50) \<lparr>remote = (xs, []), calls = []\<rparr> d =
           Some \<lparr>yielded = map File xs, raised = None,
                 after = \<lparr>remote = (xs, []),
                   calls = [(FileListApi d 0, Inr (file_page_response 50 xs 0)),
                            (FileListApi d 50, Inr (file_page_response 50 xs 50)),
                            (FileListApi d 100, Inr (file_page_response 50 xs 100))]\<rparr>\<rparr>"
proof -
  have a: "arrive (xs, []) = (xs, [])"
    by (simp add: arrive_def)
  have s0: "StorageService_list_loop (paged_client 50) \<lparr>remote = (xs, []), calls = []\<rparr>
              (FileListApi d 0) [] =
            StorageService_list_loop (paged_client 50)
              \<lparr>remote = (xs, []), calls = [(FileListApi d 0, Inr (file_page_response 50 xs 0))]\<rparr>
              (FileListApi d 50) (map File (take 50 xs))"
    using paged_file_step [of 0 "(xs, [])" 50 "[]" d "[]"] len by (simp add: a)
  have s1: "StorageService_list_loop (paged_client 50)
              \<lparr>remote = (xs, []), calls = [(FileListApi d 0, Inr (file_page_response 50 xs 0))]\<rparr>
              (FileListApi d 50) (map File (take 50 xs)) =
            StorageService_list_loop (paged_client 50)
              \<lparr>remote = (xs, []),
               calls = [(FileListApi d 0, Inr (file_page_response 50 xs 0)),
                        (FileListApi d 50, Inr (file_page_response 50 xs 50))]\<rparr>
              (FileListApi d 100) (map File (take 50 xs) @ map File (take 50 (drop 50 xs)))"
    using paged_file_step [of 50 "(xs, [])" 50
        "[(FileListApi d 0, Inr (file_page_response 50 xs 0))]" d "map File (take 50 xs)"] len
    by (simp add: a)
  have s2: "StorageService_list_loop (paged_client 50)
              \<lparr>remote = (xs, []),
               calls = [(FileListApi d 0, Inr (file_page_response 50 xs 0)),
                        (FileListApi d 50, Inr (file_page_response 50 xs 50))]\<rparr>
              (FileListApi d 100) (map File (take 50 xs) @ map File (take 50 (drop 50 xs))) =
            Some \<lparr>yielded = (map File (take 50 xs) @ map File (take 50 (drop 50 xs)))
                     @ map File (drop 100 xs),
                  raised = None,
                  after = \<lparr>remote = (xs, []),
                    calls = [(FileListApi d 0, Inr (file_page_response 50 xs 0)),
                             (FileListApi d 50, Inr (file_page_response 50 xs 50)),
                             (FileListApi d 100, Inr (file_page_response 50 xs 100))]\<rparr>\<rparr>"
    using paged_file_step [of 100 "(xs, [])" 50
        "[(FileListApi d 0, Inr (file_page_response 50 xs 0)),
          (FileListApi d 50, Inr (file_page_response 50 xs 50))]" d
        "map File (take 50 xs) @ map File (take 50 (drop 50 xs))"] len
    by (simp add: a)
  have y: "(map File (take 50 xs) @ map File (take 50 (drop 50 xs))) @ map File (drop 100 xs)
             = map File xs"
    using take_two_pages [OF len] by (metis append_assoc map_append)
  have run: "StorageService_list_loop (paged_client 50) \<lparr>remote = (xs, []), calls = []\<rparr>
               (FileListApi d 0) [] =
             Some \<lparr>yielded = map File xs, raised = None,
                   after = \<lparr>remote = (xs, []),
                     calls = [(FileListApi d 0, Inr (file_page_response 50 xs 0)),
                              (FileListApi d 50, Inr (file_page_response 50 xs 50)),
                              (FileListApi d 100, Inr (file_page_response 50 xs 100))]\<rparr>\<rparr>"
    by (simp only: s0 s1 s2 y)
  have "ss_client (paged_storage 50 :: (paged_remote, unit) StorageService) = paged_client 50"
    by (simp add: paged_storage_def)
  then show ?thesis
    unfolding StorageService_list_def file_ListApi_def using run by simp
qed



section \<open>The listings against any client\<close>


















text \<open>
  Totals that never decrease and pages that are consistent do not make a traversal end:
  against the endless remote the file listing has no result.
\<close>

lemma endless_loop_no_result:
  assumes "StorageService_list_loop cl w spec acc = Some t"
  shows "cl = endless_client \<longrightarrow> (\<forall>d off. spec \<noteq> FileListApi d off)"
  using assms
proof (induction rule: StorageService_list_loop.raw_induct [rotated 1, consumes 1])
  case (1 loop cl w spec acc t)
  show ?case
  proof (intro impI allI notI)
    fix d off
    assume c: "cl = endless_client" and s: "spec = FileListApi d off"
    let ?r = "PDict [(''count'', PInt (off + 2)), (''offset'', PInt off),
                     (''files'', PList [PInt off])]"
    let ?w' = "\<lparr>remote = remote w, calls = calls w @ [(spec, Inr ?r)]\<rparr>"
    have ea: "execute_api cl w spec = (Inr ?r, ?w')"
      using c s by (simp add: execute_api_def endless_client_def)
    have items: "file_page_items ?r = Inr [PInt off]"
      by (simp add: file_page_items_def)
    have nxt: "file_page_next ?r = Inr (Some (off + 1))"
      by (simp add: file_page_next_def py_add_int_def py_int_ge_def)
    from 1(2) ea items nxt
    have "loop cl ?w' (set_offset spec (off + 1)) (acc @ map File [PInt off]) = Some t"
      by simp
    from 1(1) [OF this] c s show False by simp
  qed
qed

lemma endless_listing_diverges:
  "StorageService_list endless_storage w d = None"
proof (cases "StorageService_list endless_storage w d")
  case None
  then show ?thesis .
next
  case (Some t)
  then have "StorageService_list_loop endless_client w (FileListApi d 0) [] = Some t"
    by (simp add: StorageService_list_def file_ListApi_def endless_storage_def)
  from endless_loop_no_result [OF this] show ?thesis by simp
qed


section \<open>Upload negotiation\<close>

text \<open>
  Claim C1. When the stream is readable and seekable and the pre-check answers with a
  truthy \<^verbatim>\<open>done\<close>, \<^verbatim>\<open>request_upload_data\<close> makes the pre-check call and no other: the
  token endpoint is not called, and the ticket is created from the pre-check result with
  \<^verbatim>\<open>None\<close> as its token part.
\<close>

theorem upload_done_no_token:
  assumes "io_readable data_io" and "io_seekable data_io"
    and "execute (ss_client self) (remote w)
           (UploadInitApi (''U_1_'' @ dir_id) save_name data_io (ss_upload_helper self))
         = (Inr init_result, s1)"
    and "py_getitem init_result ''done'' = Inr done"
    and "py_truthy done"
  shows "StorageService_request_upload_data self w dir_id save_name data_io =
           (Inr (Some \<lparr>ut_init = init_result, ut_token = PNone\<rparr>),
            \<lparr>remote = s1,
             calls = calls w @
               [(UploadInitApi (''U_1_'' @ dir_id) save_name data_io (ss_upload_helper self),
                 Inr init_result)]\<rparr>)
         \<and> token_calls (calls (snd (StorageService_request_upload_data self w dir_id
               save_name data_io))) = token_calls (calls w)"
  using assms
  by (simp add: StorageService_request_upload_data_def execute_api_def UploadTicket_create_def
      token_calls_def)

theorem upload_done_no_token_witness:
  "io_readable good_io \<and> io_seekable good_io \<and>
   py_truthy (PBool True) \<and>
   StorageService_request_upload_data
     (stub_storage (PDict [(''done'', PBool True), (''pickcode'', PStr ''pc'')]) PNone)
     (fresh_session ()) ''0'' ''a.bin'' good_io =
   (Inr (Some \<lparr>ut_init = PDict [(''done'', PBool True), (''pickcode'', PStr ''pc'')],
                ut_token = PNone\<rparr>),
    \<lparr>remote = (),
     calls = [(UploadInitApi ''U_1_0'' ''a.bin'' good_io (),
               Inr (PDict [(''done'', PBool True), (''pickcode'', PStr ''pc'')]))]\<rparr>)"
  using upload_done_no_token [of good_io
      "stub_storage (PDict [(''done'', PBool True), (''pickcode'', PStr ''pc'')]) PNone"
      "fresh_session ()" "''0''" "''a.bin''"
      "PDict [(''done'', PBool True), (''pickcode'', PStr ''pc'')]" "()" "PBool True"]
  by (simp add: good_io_def stub_storage_def stub_client_def fresh_session_def)

text \<open>
  Claim C2. When the stream is readable and seekable and the pre-check answers with a
  falsy \<^verbatim>\<open>done\<close>, whatever the value and whatever else the answer holds, the token
  endpoint is called exactly once, right after the pre-check; where that call returns,
  the ticket is created from the pre-check result and the token result.
\<close>

theorem upload_not_done_one_token:
  assumes "io_readable data_io" and "io_seekable data_io"
    and "execute (ss_client self) (remote w)
           (UploadInitApi (''U_1_'' @ dir_id) save_name data_io (ss_upload_helper self))
         = (Inr init_result, s1)"
    and "py_getitem init_result ''done'' = Inr done"
    and "\<not> py_truthy done"
    and "execute (ss_client self) s1 UploadTokenApi = (r, s2)"
  shows "StorageService_request_upload_data self w dir_id save_name data_io =
           ((case r of
               Inl e \<Rightarrow> Inl e
             | Inr token_result \<Rightarrow>
                 Inr (Some \<lparr>ut_init = init_result, ut_token = token_result\<rparr>)),
            \<lparr>remote = s2,
             calls = calls w @
               [(UploadInitApi (''U_1_'' @ dir_id) save_name data_io (ss_upload_helper self),
                 Inr init_result),
                (UploadTokenApi, r)]\<rparr>)
         \<and> token_calls (calls (snd (StorageService_request_upload_data self w dir_id
               save_name data_io))) = token_calls (calls w) + 1"
  using assms
  by (simp add: StorageService_request_upload_data_def execute_api_def UploadTicket_create_def
      token_calls_def split: sum.splits)

theorem upload_not_done_one_token_witness:
  "io_readable good_io \<and> io_seekable good_io \<and> \<not> py_truthy (PInt 0) \<and>
   StorageService_request_upload_data
     (stub_storage (PDict [(''done'', PInt 0)]) (PDict [(''bucket'', PStr ''b'')]))
     (fresh_session ()) ''0'' ''a.bin'' good_io =
   (Inr (Some \<lparr>ut_init = PDict [(''done'', PInt 0)],
                ut_token = PDict [(''bucket'', PStr ''b'')]\<rparr>),
    \<lparr>remote = (),
     calls = [(UploadInitApi ''U_1_0'' ''a.bin'' good_io (), Inr (PDict [(''done'', PInt 0)])),
              (UploadTokenApi, Inr (PDict [(''bucket'', PStr ''b'')]))]\<rparr>)"
  using upload_not_done_one_token [of good_io
      "stub_storage (PDict [(''done'', PInt 0)]) (PDict [(''bucket'', PStr ''b'')])"
      "fresh_session ()" "''0''" "''a.bin''"
      "PDict [(''done'', PInt 0)]" "()" "PInt 0" "Inr (PDict [(''bucket'', PStr ''b'')])" "()"]
  by (simp add: good_io_def stub_storage_def stub_client_def fresh_session_def)

text \<open>
  Claim C3 says that a stream that is not seekable or not readable makes
  \<^verbatim>\<open>request_upload_data\<close> fail with a \<open>UsageError\<close>. The source returns \<^verbatim>\<open>None\<close> instead:
  no exception is raised for the non-seekable stream \<open>pipe_io\<close>.
\<close>

theorem upload_unseekable_counterexample:
  "\<not> io_seekable pipe_io \<and>
   fst (StorageService_request_upload_data (stub_storage PNone PNone) (fresh_session ())
          ''0'' ''a.bin'' pipe_io) \<noteq> Inl UsageError"
  by (simp add: StorageService_request_upload_data_def pipe_io_def)

text \<open>
  Claim C3, amended. For a stream that is not readable or not seekable,
  \<^verbatim>\<open>request_upload_data\<close> returns \<^verbatim>\<open>None\<close> before any network call: the session and its
  log of calls are unchanged.
\<close>

theorem upload_unusable_stream_absent:
  "\<not> (io_readable data_io \<and> io_seekable data_io) \<Longrightarrow>
   StorageService_request_upload_data self w dir_id save_name data_io = (Inr None, w)"
  by (simp add: StorageService_request_upload_data_def)

theorem upload_unusable_stream_absent_witness:
  "\<not> (io_readable pipe_io \<and> io_seekable pipe_io) \<and>
   StorageService_request_upload_data (stub_storage PNone PNone) (fresh_session ())
     ''0'' ''a.bin'' pipe_io = (Inr None, \<lparr>remote = (), calls = []\<rparr>)"
  using upload_unusable_stream_absent [of pipe_io "stub_storage PNone PNone"
      "fresh_session ()" "''0''" "''a.bin''"]
  by (simp add: pipe_io_def fresh_session_def)

text \<open>
  Claim C10. For a path that does not exist, \<^verbatim>\<open>request_upload\<close> returns \<^verbatim>\<open>None\<close> without
  raising and without a network call: the session and its log of calls are unchanged.
\<close>

theorem upload_missing_file_absent:
  "\<not> os_path_exists fs file_path \<Longrightarrow>
   StorageService_request_upload self fs w dir_id file_path = (Inr None, w)"
  by (simp add: StorageService_request_upload_def)

theorem upload_missing_file_absent_witness:
  "\<not> os_path_exists (\<lambda>p. None) ''/tmp/missing.bin'' \<and>
   StorageService_request_upload (stub_storage PNone PNone) (\<lambda>p. None) (fresh_session ())
     ''0'' ''/tmp/missing.bin'' = (Inr None, \<lparr>remote = (), calls = []\<rparr>)"
  using upload_missing_file_absent [of "\<lambda>p. None" "''/tmp/missing.bin''"
      "stub_storage PNone PNone" "fresh_session ()" "''0''"]
  by (simp add: os_path_exists_def fresh_session_def)


section \<open>Download tickets\<close>

text \<open>
  Claim C6. When the answer to the download request is \<^verbatim>\<open>None\<close>, or a dict without the
  key \<^verbatim>\<open>url\<close>, \<^verbatim>\<open>request_download\<close> returns \<^verbatim>\<open>None\<close> and raises nothing.
\<close>

theorem download_without_url_absent:
  assumes "execute (ss_client self) (remote w) (FileDownloadApi pickcode) = (Inr result, s1)"
    and "result = PNone \<or> (\<exists>kvs. result = PDict kvs \<and> ''url'' \<notin> fst ` set kvs)"
  shows "StorageService_request_download self w pickcode =
           (Inr None,
            \<lparr>remote = s1, calls = calls w @ [(FileDownloadApi pickcode, Inr result)]\<rparr>)"
  using assms
  by (auto simp: StorageService_request_download_def execute_api_def)

theorem download_without_url_absent_witness:
  "''url'' \<notin> fst ` set [(''state'', PBool False)] \<and>
   StorageService_request_download (stub_storage (PDict [(''state'', PBool False)]) PNone)
     (fresh_session ()) ''abcd'' =
   (Inr None,
    \<lparr>remote = (),
     calls = [(FileDownloadApi ''abcd'', Inr (PDict [(''state'', PBool False)]))]\<rparr>) \<and>
   StorageService_request_download (stub_storage PNone PNone) (fresh_session ()) ''abcd'' =
   (Inr None, \<lparr>remote = (), calls = [(FileDownloadApi ''abcd'', Inr PNone)]\<rparr>)"
  using download_without_url_absent [of "stub_storage (PDict [(''state'', PBool False)]) PNone"
      "fresh_session ()" "''abcd''" "PDict [(''state'', PBool False)]" "()"]
    download_without_url_absent [of "stub_storage PNone PNone"
      "fresh_session ()" "''abcd''" "PNone" "()"]
  by (simp add: stub_storage_def stub_client_def fresh_session_def)




section \<open>Bulk operations\<close>

text \<open>
  Claim C7. Deleting tasks, deleting files, moving files and adding URLs with no
  argument return at once, without an error and without a network call: the session
  and its log of calls are unchanged.
\<close>

theorem bulk_empty_is_noop:
  "OfflineService_delete off w [] = (Inr (), w) \<and>
   StorageService_delete sto w' [] = (Inr (), w') \<and>
   StorageService_move sto w' target_dir_id [] = (Inr (), w') \<and>
   OfflineService_add_url off w [] = (Inr [], w)"
  by (simp add: OfflineService_delete_def StorageService_delete_def StorageService_move_def
      OfflineService_add_url_def)


section \<open>Paginated listings\<close>

text \<open>
  Claim C4. One round of the file listing executes the spec, yields the files of the
  page in order, takes as next position the offset of the answer plus the number of
  files of the page, and goes on with the spec set to that position exactly when it is
  below the reported count; otherwise the listing ends. Listing any 125 files from a
  remote that serves pages of 50 makes exactly three calls, at offsets 0, 50 and 100, and
  yields the 125 files in the order of the remote.
\<close>

theorem file_listing_offset_pagination:
  "(execute cl (remote w) spec = (Inr result, s') \<and>
    py_getitem result ''files'' = Inr (PList fs) \<and>
    py_getitem result ''offset'' = Inr (PInt off) \<and>
    py_getitem result ''count'' = Inr (PInt cnt) \<longrightarrow>
      StorageService_list_loop cl w spec acc =
        (if off + int (length fs) < cnt
         then StorageService_list_loop cl
                \<lparr>remote = s', calls = calls w @ [(spec, Inr result)]\<rparr>
                (set_offset spec (off + int (length fs))) (acc @ map File fs)
         else Some \<lparr>yielded = acc @ map File fs, raised = None,
                    after = \<lparr>remote = s', calls = calls w @ [(spec, Inr result)]\<rparr>\<rparr>))
   \<and> (length xs = 125 \<longrightarrow>
        StorageService_list (paged_storage 50) \<lparr>remote = (xs, []), calls = []\<rparr> d =
          Some \<lparr>yielded = map File xs, raised = None,
                after = \<lparr>remote = (xs, []),
                  calls = [(FileListApi d 0, Inr (file_page_response 50 xs 0)),
                           (FileListApi d 50, Inr (file_page_response 50 xs 50)),
                           (FileListApi d 100, Inr (file_page_response 50 xs 100))]\<rparr>\<rparr>)"
  using file_loop_step [of cl w spec result s' fs off cnt acc] listing_125_by_50 [of xs d]
  by blast

theorem file_listing_offset_pagination_witness:
  "execute (paged_client 50) (remote five_session) (FileListApi ''0'' 0) =
     (Inr (file_page_response 50 (map PInt [10, 11, 12, 13, 14]) 0), remote five_session) \<and>
   py_getitem (file_page_response 50 (map PInt [10, 11, 12, 13, 14]) 0) ''files'' =
     Inr (PList (map PInt [10, 11, 12, 13, 14])) \<and>
   py_getitem (file_page_response 50 (map PInt [10, 11, 12, 13, 14]) 0) ''offset'' = Inr (PInt 0) \<and>
   py_getitem (file_page_response 50 (map PInt [10, 11, 12, 13, 14]) 0) ''count'' = Inr (PInt 5) \<and>
   StorageService_list_loop (paged_client 50) five_session (FileListApi ''0'' 0) [] =
     Some \<lparr>yielded = map File (map PInt [10, 11, 12, 13, 14]), raised = None,
           after = \<lparr>remote = remote five_session,
             calls = [(FileListApi ''0'' 0,
                       Inr (file_page_response 50 (map PInt [10, 11, 12, 13, 14]) 0))]\<rparr>\<rparr> \<and>
   length (replicate 125 PNone) = 125 \<and>
   StorageService_list (paged_storage 50) \<lparr>remote = (replicate 125 PNone, []), calls = []\<rparr> ''0'' =
     Some \<lparr>yielded = map File (replicate 125 PNone), raised = None,
           after = \<lparr>remote = (replicate 125 PNone, []),
             calls = [(FileListApi ''0'' 0, Inr (file_page_response 50 (replicate 125 PNone) 0)),
                      (FileListApi ''0'' 50, Inr (file_page_response 50 (replicate 125 PNone) 50)),
                      (FileListApi ''0'' 100,
                       Inr (file_page_response 50 (replicate 125 PNone) 100))]\<rparr>\<rparr>"
  using file_listing_offset_pagination [of "paged_client 50" five_session "FileListApi ''0'' 0"
      "file_page_response 50 (map PInt [10, 11, 12, 13, 14]) 0" "remote five_session"
      "map PInt [10, 11, 12, 13, 14]" 0 5 "[]" "replicate 125 PNone" "''0''"]
  by (simp add: five_session_def paged_client_def paged_execute_def arrive_def
      file_page_response_def)





text \<open>
  Claim C8. The task listing starts at page 1 and, in each round, reads \<^verbatim>\<open>page\<close> and
  \<^verbatim>\<open>page_count\<close> from the answer and goes on with the spec set to \<^verbatim>\<open>page + 1\<close> exactly when
  \<^verbatim>\<open>page < page_count\<close>; otherwise the listing ends. It is a strategy of its own: on the
  same remote with five items in pages of two, the task listing asks for the pages
  1, 2, 3 and the file listing for the offsets 0, 2, 4.
\<close>

theorem task_listing_page_indexed:
  "OfflineService_list self w0 =
     OfflineService_list_loop (os_client self) w0 (OfflineListApi 1) []
   \<and> (execute cl (remote w) spec = (Inr result, s') \<and>
      py_getitem result ''tasks'' = Inr (PList ts) \<and>
      py_getitem result ''page'' = Inr (PInt p) \<and>
      py_getitem result ''page_count'' = Inr (PInt pc) \<longrightarrow>
        OfflineService_list_loop cl w spec acc =
          (if p < pc
           then OfflineService_list_loop cl
                  \<lparr>remote = s', calls = calls w @ [(spec, Inr result)]\<rparr>
                  (set_page spec (p + 1)) (acc @ map Task ts)
           else Some \<lparr>yielded = acc @ map Task ts, raised = None,
                      after = \<lparr>remote = s', calls = calls w @ [(spec, Inr result)]\<rparr>\<rparr>))
   \<and> map fst (calls (after (the (OfflineService_list (paged_offline 2) five_session)))) =
       [OfflineListApi 1, OfflineListApi 2, OfflineListApi 3]
   \<and> map fst (calls (after (the (StorageService_list (paged_storage 2) five_session ''0'')))) =
       [FileListApi ''0'' 0, FileListApi ''0'' 2, FileListApi ''0'' 4]"
  using task_loop_step [of cl w spec result s' ts p pc acc] five_tasks_run five_files_run
  by (simp add: OfflineService_list_def offline_ListApi_def)

theorem task_listing_page_indexed_witness:
  "execute (paged_client 2) (remote five_session) (OfflineListApi 1) =
     (Inr (task_page_response 2 (map PInt [10, 11, 12, 13, 14]) 1), remote five_session) \<and>
   py_getitem (task_page_response 2 (map PInt [10, 11, 12, 13, 14]) 1) ''tasks'' =
     Inr (PList [PInt 10, PInt 11]) \<and>
   py_getitem (task_page_response 2 (map PInt [10, 11, 12, 13, 14]) 1) ''page'' = Inr (PInt 1) \<and>
   py_getitem (task_page_response 2 (map PInt [10, 11, 12, 13, 14]) 1) ''page_count'' =
     Inr (PInt 3) \<and>
   OfflineService_list_loop (paged_client 2) five_session (OfflineListApi 1) [] =
     OfflineService_list_loop (paged_client 2)
       \<lparr>remote = remote five_session,
        calls = [(OfflineListApi 1,
                  Inr (task_page_response 2 (map PInt [10, 11, 12, 13, 14]) 1))]\<rparr>
       (OfflineListApi 2) [Task (PInt 10), Task (PInt 11)]"
  using task_listing_page_indexed [of "paged_offline 2" five_session "paged_client 2"
      five_session "OfflineListApi 1" "task_page_response 2 (map PInt [10, 11, 12, 13, 14]) 1"
      "remote five_session" "[PInt 10, PInt 11]" 1 3 "[]"]
  by (simp add: five_session_def paged_client_def paged_execute_def arrive_def
      task_page_response_def)

end
